theory Spec2Isabelle
  imports Complex_Main "HOL-Library.Sublist"
begin

section \<open>Strings\<close>

text \<open>
  JavaScript strings are modelled as \<^typ>\<open>string\<close> over ASCII. Numbers are IEEE doubles in
  the source; the scores handled here (sums of \<open>0.5\<close> and \<open>0.3 / n\<close>, link strengths) are
  modelled as exact \<^typ>\<open>real\<close> numbers.
\<close>

definition toLowerCase_char :: "char \<Rightarrow> char" where
  "toLowerCase_char c =
     (case map_of (zip ''ABCDEFGHIJKLMNOPQRSTUVWXYZ'' ''abcdefghijklmnopqrstuvwxyz'') c of
        Some l \<Rightarrow> l
      | None \<Rightarrow> c)"

definition toLowerCase :: "string \<Rightarrow> string" where
  "toLowerCase s = map toLowerCase_char s"

text \<open>The ASCII members of the regular expression class \<open>\s\<close>.\<close>

definition is_space :: "char \<Rightarrow> bool" where
  "is_space c = (c \<in> set [CHR '' '', CHR 0x09, CHR 0x0A, CHR 0x0B, CHR 0x0C, CHR 0x0D])"

fun starts_with :: "'a list \<Rightarrow> 'a list \<Rightarrow> bool" where
  "starts_with s [] = True"
| "starts_with [] (p # ps) = False"
| "starts_with (c # cs) (p # ps) = (c = p \<and> starts_with cs ps)"

text \<open>\<open>text.includes(word)\<close>: \<open>word\<close> occurs in \<open>text\<close> as a contiguous substring.\<close>

fun str_includes :: "'a list \<Rightarrow> 'a list \<Rightarrow> bool" where
  "str_includes [] w = (w = [])"
| "str_includes (c # cs) w = (starts_with (c # cs) w \<or> str_includes cs w)"

text \<open>
  \<open>s.split(/\s+/)\<close>: the pieces of \<open>s\<close> between maximal runs of whitespace. A run at
  the start or at the end of \<open>s\<close> leaves an empty piece there, and the empty string
  splits into one empty piece.
\<close>

function split_ws :: "string \<Rightarrow> string \<Rightarrow> string list" where
  "split_ws cur [] = [cur]"
| "split_ws cur (c # cs) =
     (if is_space c then cur # split_ws [] (dropWhile is_space cs)
      else split_ws (cur @ [c]) cs)"
  by pat_completeness auto
termination
  by (relation "measure (\<lambda>(cur, s). length s)")
     (auto simp: less_Suc_eq_le length_dropWhile_le)

definition split_whitespace :: "string \<Rightarrow> string list" where
  "split_whitespace s = split_ws [] s"

text \<open>Decimal rendering of an array index, for the template \<open>`node-${index}`\<close>.\<close>

definition digit_char :: "nat \<Rightarrow> char" where
  "digit_char d = ''0123456789'' ! d"

fun string_of_nat :: "nat \<Rightarrow> string" where
  "string_of_nat n =
     (if n < 10 then [digit_char n] else string_of_nat (n div 10) @ [digit_char (n mod 10)])"

section \<open>Records returned by the providers\<close>

text \<open>
  A result object has optional properties; \<open>None\<close> is an absent property. Field names
  carry the prefix of their record, since the source uses \<open>source\<close>, \<open>id\<close>, \<open>name\<close> and
  \<open>type\<close> on several kinds of object.
\<close>

record relationship =
  rel_target :: "string option"
  rel_strength :: "real option"

record item =
  item_id :: "string option"
  item_name :: "string option"
  item_title :: "string option"
  item_description :: "string option"
  item_source :: "string option"
  item_type :: "string option"
  item_val :: "real option"
  item_relevance :: "real option"
  item_relationships :: "relationship list option"

text \<open>The object \<open>{}\<close>, and the object \<open>IcosaProvider.search\<close> builds for its \<open>i\<close>-th model.\<close>

definition empty_item :: item where
  "empty_item =
     \<lparr>item_id = None, item_name = None, item_title = None, item_description = None,
      item_source = None, item_type = None, item_val = None, item_relevance = None,
      item_relationships = None\<rparr>"

definition icosa_item :: "nat \<Rightarrow> string \<Rightarrow> item" where
  "icosa_item i model_name =
     empty_item\<lparr>item_id := Some (''icosa-'' @ string_of_nat i), item_source := Some ''icosa'',
       item_name := Some model_name, item_description := Some ''3D model from Poly Gallery''\<rparr>"

text \<open>\<open>s || d\<close> on an optional string: absent and empty strings are falsy.\<close>

definition str_or :: "string option \<Rightarrow> string \<Rightarrow> string" where
  "str_or s d = (case s of None \<Rightarrow> d | Some v \<Rightarrow> if v = [] then d else v)"

text \<open>\<open>x || d\<close> on an optional number: absent and \<open>0\<close> are falsy.\<close>

definition num_or :: "real option \<Rightarrow> real \<Rightarrow> real" where
  "num_or x d = (case x of None \<Rightarrow> d | Some v \<Rightarrow> if v = 0 then d else v)"

section \<open>DataManager.calculateRelevance\<close>

definition candidate_text :: "item \<Rightarrow> string" where
  "candidate_text result =
     toLowerCase (str_or (item_name result) [] @ '' '' @ str_or (item_description result) [])"

text \<open>The body of \<open>words.forEach\<close>, threading \<open>score\<close>; \<open>n\<close> is \<open>words.length\<close>.\<close>

fun score_words :: "string \<Rightarrow> nat \<Rightarrow> string list \<Rightarrow> real \<Rightarrow> real" where
  "score_words text n [] score = score"
| "score_words text n (word # ws) score =
     score_words text n ws (if str_includes text word then score + 0.3 / real n else score)"

definition calculateRelevance :: "string \<Rightarrow> item \<Rightarrow> real" where
  "calculateRelevance query result =
     (let queryLower = toLowerCase query;
          text = candidate_text result;
          score = (if str_includes text queryLower then 0 + 0.5 else 0);
          words = split_whitespace queryLower;
          score = score_words text (length words) words score
      in min score 1)"

section \<open>DataManager.rankResults\<close>

text \<open>
  \<open>Array.prototype.sort\<close> is stable; it is modelled by insertion of each element, from
  the last to the first, in front of the first element it does not compare greater than.
\<close>

fun insert_sorted :: "('a \<Rightarrow> 'a \<Rightarrow> real) \<Rightarrow> 'a \<Rightarrow> 'a list \<Rightarrow> 'a list" where
  "insert_sorted cmp x [] = [x]"
| "insert_sorted cmp x (y # ys) =
     (if cmp x y \<le> 0 then x # y # ys else y # insert_sorted cmp x ys)"

definition js_sort :: "('a \<Rightarrow> 'a \<Rightarrow> real) \<Rightarrow> 'a list \<Rightarrow> 'a list" where
  "js_sort cmp xs = foldr (insert_sorted cmp) xs []"

text \<open>The sort key \<open>x.relevance || 0\<close> and the comparator \<open>(a, b) => key(b) - key(a)\<close>.\<close>

definition rel_key :: "item \<Rightarrow> real" where
  "rel_key r = num_or (item_relevance r) 0"

definition compare_relevance :: "item \<Rightarrow> item \<Rightarrow> real" where
  "compare_relevance a b = rel_key b - rel_key a"

definition with_relevance :: "string \<Rightarrow> item \<Rightarrow> item" where
  "with_relevance query result =
     result\<lparr>item_relevance := Some (calculateRelevance query result)\<rparr>"

definition rankResults :: "item list \<Rightarrow> string \<Rightarrow> item list" where
  "rankResults results query =
     take 100 (js_sort compare_relevance (map (with_relevance query) results))"

section \<open>DataManager.convertToGraphData\<close>

text \<open>
  A node is \<open>{id: \<dots>, name: \<dots>, type: \<dots>, val: \<dots>, ...item}\<close>: the four defaults, each
  overwritten by the item's own property of that name when the item has one, and the
  item's remaining properties. The \<open>source\<close> and \<open>target\<close> of a link are \<open>item.id\<close> and
  \<open>rel.target\<close> as they stand, so they are optional strings, \<open>None\<close> standing for
  \<open>undefined\<close>.
\<close>

record node =
  node_id :: string
  node_name :: string
  node_type :: string
  node_val :: real
  node_item :: item

record link =
  link_source :: "string option"
  link_target :: "string option"
  link_value :: real

record graphData =
  graph_nodes :: "node list"
  graph_links :: "link list"

text \<open>The spread \<open>...item\<close> after a default \<open>d\<close>: an own property wins.\<close>

definition spread :: "'a option \<Rightarrow> 'a \<Rightarrow> 'a" where
  "spread own d = (case own of Some v \<Rightarrow> v | None \<Rightarrow> d)"

definition make_node :: "item \<Rightarrow> nat \<Rightarrow> node" where
  "make_node item index =
     \<lparr>node_id = spread (item_id item) (str_or (item_id item) (''node-'' @ string_of_nat index)),
      node_name = spread (item_name item)
                    (str_or (item_name item) (str_or (item_title item) ''Untitled'')),
      node_type = spread (item_type item) (str_or (item_source item) ''unknown''),
      node_val = spread (item_val item) (num_or (item_relevance item) 1),
      node_item = item\<rparr>"

text \<open>
  The first \<open>items.forEach\<close>: every item pushes its node onto \<open>nodes\<close> and stores it in
  \<open>nodeMap\<close> under its id.
\<close>

fun create_nodes ::
  "item list \<Rightarrow> nat \<Rightarrow> node list \<Rightarrow> (string \<rightharpoonup> node) \<Rightarrow> node list \<times> (string \<rightharpoonup> node)" where
  "create_nodes [] index nodes nodeMap = (nodes, nodeMap)"
| "create_nodes (item # items) index nodes nodeMap =
     (let node = make_node item index
      in create_nodes items (Suc index) (nodes @ [node]) (nodeMap(node_id node \<mapsto> node)))"

text \<open>\<open>nodeMap.has(rel.target)\<close>; an absent target is no key of the map.\<close>

definition nodeMap_has :: "(string \<rightharpoonup> node) \<Rightarrow> string option \<Rightarrow> bool" where
  "nodeMap_has nodeMap k = (case k of None \<Rightarrow> False | Some t \<Rightarrow> nodeMap t \<noteq> None)"

text \<open>The inner \<open>item.relationships.forEach\<close>, then the second \<open>items.forEach\<close>.\<close>

fun relationship_links ::
  "item \<Rightarrow> (string \<rightharpoonup> node) \<Rightarrow> relationship list \<Rightarrow> link list \<Rightarrow> link list" where
  "relationship_links item nodeMap [] links = links"
| "relationship_links item nodeMap (rel # rels) links =
     relationship_links item nodeMap rels
       (if nodeMap_has nodeMap (rel_target rel)
        then links @ [\<lparr>link_source = item_id item, link_target = rel_target rel,
                       link_value = num_or (rel_strength rel) 1\<rparr>]
        else links)"

fun create_links :: "item list \<Rightarrow> (string \<rightharpoonup> node) \<Rightarrow> link list \<Rightarrow> link list" where
  "create_links [] nodeMap links = links"
| "create_links (item # items) nodeMap links =
     create_links items nodeMap
       (case item_relationships item of
          None \<Rightarrow> links
        | Some rels \<Rightarrow> relationship_links item nodeMap rels links)"

text \<open>
  \<open>typeGroups\<close> is a \<open>Map\<close>, iterated in the order in which its keys were first set: an
  association list. One step of \<open>nodes.forEach\<close> adds the key with an empty group when it
  is new, then pushes the node onto the group of its type.
\<close>

definition group_node :: "node \<Rightarrow> (string \<times> node list) list \<Rightarrow> (string \<times> node list) list" where
  "group_node node typeGroups =
     (let typeGroups = (if map_of typeGroups (node_type node) = None
                        then typeGroups @ [(node_type node, [])] else typeGroups)
      in map (\<lambda>(t, group). if t = node_type node then (t, group @ [node]) else (t, group))
           typeGroups)"

fun group_nodes :: "node list \<Rightarrow> (string \<times> node list) list \<Rightarrow> (string \<times> node list) list" where
  "group_nodes [] typeGroups = typeGroups"
| "group_nodes (node # nodes) typeGroups = group_nodes nodes (group_node node typeGroups)"

text \<open>\<open>for (let i = 0; i < group.length - 1; i++) links.push(\<dots>)\<close>.\<close>

function chain_links :: "node list \<Rightarrow> nat \<Rightarrow> link list \<Rightarrow> link list" where
  "chain_links grp i links =
     (if int i < int (length grp) - 1
      then chain_links grp (i + 1)
             (links @ [\<lparr>link_source = Some (node_id (grp ! i)),
                        link_target = Some (node_id (grp ! (i + 1))), link_value = 0.5\<rparr>])
      else links)"
  by pat_completeness auto
termination
  by (relation "measure (\<lambda>(grp, i, links). length grp - i)") auto

declare chain_links.simps [simp del]

fun connect_groups :: "(string \<times> node list) list \<Rightarrow> link list \<Rightarrow> link list" where
  "connect_groups [] links = links"
| "connect_groups ((t, grp) # typeGroups) links =
     connect_groups typeGroups (chain_links grp 0 links)"

definition convertToGraphData :: "item list \<Rightarrow> graphData" where
  "convertToGraphData items =
     (let (nodes, nodeMap) = create_nodes items 0 [] Map.empty;
          links = create_links items nodeMap [];
          links = (if length links = 0 \<and> length nodes > 1
                   then connect_groups (group_nodes nodes []) links
                   else links)
      in \<lparr>graph_nodes = nodes, graph_links = links\<rparr>)"

section \<open>Reference notions for the graph\<close>

text \<open>The links pushed by the second \<open>items.forEach\<close>: those of the explicit relationships.\<close>

definition explicit_links :: "item list \<Rightarrow> link list" where
  "explicit_links items = create_links items (snd (create_nodes items 0 [] Map.empty)) []"

text \<open>The id a record's node gets: its own \<open>id\<close>, or \<open>node-<index>\<close> when it has none.\<close>

definition record_id :: "item \<Rightarrow> nat \<Rightarrow> string" where
  "record_id item index =
     (case item_id item of Some s \<Rightarrow> s | None \<Rightarrow> ''node-'' @ string_of_nat index)"

text \<open>The nodes of the records \<open>items\<close>, the first of which has index \<open>index\<close>.\<close>

fun node_list :: "item list \<Rightarrow> nat \<Rightarrow> node list" where
  "node_list [] index = []"
| "node_list (item # items) index = make_node item index # node_list items (Suc index)"

text \<open>
  The fallback links as the specification words them: the types in the order in which they
  first occur among the nodes, the nodes of each type in node order, and one link of strength
  \<open>0.5\<close> from each node of a group to the next node of that group.
\<close>

fun types_in_order :: "node list \<Rightarrow> string list" where
  "types_in_order [] = []"
| "types_in_order (n # ns) = node_type n # filter (\<lambda>t. t \<noteq> node_type n) (types_in_order ns)"

definition chain :: "node list \<Rightarrow> link list" where
  "chain grp =
     map (\<lambda>(a, b). \<lparr>link_source = Some (node_id a), link_target = Some (node_id b), link_value = 0.5\<rparr>)
       (zip grp (tl grp))"

definition fallback_links :: "node list \<Rightarrow> link list" where
  "fallback_links nodes =
     concat (map (\<lambda>t. chain (filter (\<lambda>n. node_type n = t) nodes)) (types_in_order nodes))"

text \<open>The link pushed for a relationship \<open>rel\<close> of \<open>item\<close> whose target is a key of \<open>nodeMap\<close>.\<close>

definition rel_link :: "item \<Rightarrow> relationship \<Rightarrow> link" where
  "rel_link item rel =
     \<lparr>link_source = item_id item, link_target = rel_target rel,
      link_value = num_or (rel_strength rel) 1\<rparr>"

text \<open>The groups by type: each type that occurs, in order of first occurrence, with its nodes.\<close>

definition grouped :: "node list \<Rightarrow> (string \<times> node list) list" where
  "grouped ns = map (\<lambda>t. (t, filter (\<lambda>n. node_type n = t) ns)) (types_in_order ns)"

text \<open>Every strength that a relationship of the records states lies in \<open>[0, 1]\<close>.\<close>

definition strengths_in_unit :: "item list \<Rightarrow> bool" where
  "strengths_in_unit items =
     (\<forall>item\<in>set items.
        \<forall>rel\<in>set (case item_relationships item of None \<Rightarrow> [] | Some rels \<Rightarrow> rels).
          case rel_strength rel of None \<Rightarrow> True | Some s \<Rightarrow> 0 \<le> s \<and> s \<le> 1)"

section \<open>The search providers\<close>

text \<open>
  A provider's \<open>async search(query)\<close> returns a promise, which is fulfilled with a value (an
  array of records, or something that is no array) or rejected with an error.
\<close>

datatype js_error = TypeError | SearchError

datatype js_value = Array "item list" | NotArray

datatype promise = Fulfilled js_value | Rejected js_error

type_synonym provider = "string \<Rightarrow> promise"

definition sampleModels :: "string list" where
  "sampleModels = [''Astronaut'', ''Damaged Helmet'', ''Flight Helmet'', ''Lantern'', ''Water Bottle'']"

fun indexed :: "nat \<Rightarrow> 'a list \<Rightarrow> (nat \<times> 'a) list" where
  "indexed i [] = []"
| "indexed i (x # xs) = (i, x) # indexed (Suc i) xs"

definition IcosaProvider_search :: provider where
  "IcosaProvider_search query =
     (let filtered = filter (\<lambda>model. str_includes (toLowerCase model) (toLowerCase query)
                                      \<or> toLowerCase query = ''all'') sampleModels
      in Fulfilled (Array (map (\<lambda>(i, model). icosa_item i model) (indexed 0 (take 5 filtered)))))"

definition ObjaverseProvider_search :: provider where
  "ObjaverseProvider_search query =
     Fulfilled (Array (map (\<lambda>i. empty_item\<lparr>item_id := Some (''objaverse-'' @ string_of_nat i),
                                  item_source := Some ''objaverse'',
                                  item_name := Some (query @ '' Object '' @ string_of_nat (i + 1)),
                                  item_description := Some ''3D object from Objaverse''\<rparr>) [0..<3]))"

definition github_repos :: "(string \<times> string) list" where
  "github_repos = [(''awesome-3d'', ''user1''), (''3d-models'', ''user2''), (''webgl-demos'', ''user3'')]"

definition GitHubProvider_search :: provider where
  "GitHubProvider_search query =
     (let nodes = concat (map (\<lambda>(i, (repo_name, owner)).
                     [empty_item\<lparr>item_id := Some (''github-repo-'' @ string_of_nat i),
                        item_source := Some ''github'', item_name := Some repo_name,
                        item_type := Some ''repository''\<rparr>,
                      empty_item\<lparr>item_id := Some (''github-user-'' @ string_of_nat i),
                        item_source := Some ''github'', item_name := Some owner,
                        item_type := Some ''user''\<rparr>]) (indexed 0 github_repos));
          relationships = map (\<lambda>(i, repo). (''github-user-'' @ string_of_nat i,
                                               ''github-repo-'' @ string_of_nat i, 1::real))
                            (indexed 0 github_repos)
      in Fulfilled (Array (map (\<lambda>node. node\<lparr>item_relationships := Some
                      (map (\<lambda>(s, t, strength).
                              \<lparr>rel_target = Some (if Some s = item_id node then t else s),
                               rel_strength = Some strength\<rparr>)
                         (filter (\<lambda>(s, t, strength). Some s = item_id node \<or> Some t = item_id node)
                            relationships))\<rparr>) nodes)))"

definition WebProvider_search :: provider where
  "WebProvider_search query =
     Fulfilled (Array [empty_item\<lparr>item_id := Some ''web-1'', item_source := Some ''web'',
        item_name := Some (''Web results for '' @ [CHR 0x22] @ query @ [CHR 0x22]),
        item_description := Some ''Search the web for more results''\<rparr>])"

definition LocalProvider_search :: provider where
  "LocalProvider_search query = Fulfilled (Array [])"

section \<open>DataManager.search\<close>

text \<open>
  The constructor stores five provider objects in the object literal \<open>searchProviders\<close>. They
  are parameters here, so that the search of a provider may fail; \<open>DataManager_default\<close> is
  the manager the constructor builds.
\<close>

record DataManager =
  searchProviders :: "(string \<times> provider) list"

definition DataManager_new ::
  "provider \<Rightarrow> provider \<Rightarrow> provider \<Rightarrow> provider \<Rightarrow> provider \<Rightarrow> DataManager" where
  "DataManager_new icosa objaverse github web local =
     \<lparr>searchProviders = [(''icosa'', icosa), (''objaverse'', objaverse), (''github'', github),
                          (''web'', web), (''local'', local)]\<rparr>"

definition DataManager_default :: DataManager where
  "DataManager_default =
     DataManager_new IcosaProvider_search ObjaverseProvider_search GitHubProvider_search
       WebProvider_search LocalProvider_search"

text \<open>
  \<open>this.searchProviders[source]\<close> reads an own property of the object literal or, failing
  that, a member inherited from \<open>Object.prototype\<close>; any other name gives \<open>undefined\<close>.
\<close>

definition object_prototype_keys :: "string list" where
  "object_prototype_keys =
     [''constructor'', ''__defineGetter__'', ''__defineSetter__'', ''hasOwnProperty'',
      ''__lookupGetter__'', ''__lookupSetter__'', ''isPrototypeOf'', ''propertyIsEnumerable'',
      ''toString'', ''valueOf'', ''__proto__'', ''toLocaleString'']"

datatype property = Own provider | Inherited | Undefined

definition get_property :: "(string \<times> provider) list \<Rightarrow> string \<Rightarrow> property" where
  "get_property obj key =
     (case map_of obj key of
        Some p \<Rightarrow> Own p
      | None \<Rightarrow> if key \<in> set object_prototype_keys then Inherited else Undefined)"

text \<open>\<open>.catch(err => { console.error(\<dots>); return []; })\<close>.\<close>

definition catch_empty :: "promise \<Rightarrow> promise" where
  "catch_empty p = (case p of Rejected err \<Rightarrow> Fulfilled (Array []) | Fulfilled v \<Rightarrow> Fulfilled v)"

text \<open>
  The callback of \<open>activeSources.map\<close>. The optional chain yields \<open>undefined\<close> (\<open>None\<close>) when
  the property is \<open>undefined\<close>. An inherited member is not nullish and has no \<open>search\<close>
  member, so the call throws a \<open>TypeError\<close>.
\<close>

definition search_source :: "DataManager \<Rightarrow> string \<Rightarrow> string \<Rightarrow> js_error + promise option" where
  "search_source dm query source =
     (case get_property (searchProviders dm) source of
        Undefined \<Rightarrow> Inr None
      | Inherited \<Rightarrow> Inl TypeError
      | Own p \<Rightarrow> Inr (Some (catch_empty (p query))))"

text \<open>\<open>Array.prototype.map\<close> with a callback that may throw.\<close>

fun map_throwing :: "('a \<Rightarrow> js_error + 'b) \<Rightarrow> 'a list \<Rightarrow> js_error + 'b list" where
  "map_throwing f [] = Inr []"
| "map_throwing f (x # xs) =
     (case f x of
        Inl err \<Rightarrow> Inl err
      | Inr y \<Rightarrow> (case map_throwing f xs of Inl err \<Rightarrow> Inl err | Inr ys \<Rightarrow> Inr (y # ys)))"

text \<open>
  \<open>await Promise.all(promises)\<close>: the values of the promises, \<open>undefined\<close> for an entry that is
  no promise; the first rejection, if there is one, is thrown.
\<close>

fun promise_all :: "promise option list \<Rightarrow> js_error + js_value list" where
  "promise_all [] = Inr []"
| "promise_all (p # ps) =
     (case p of
        Some (Rejected err) \<Rightarrow> Inl err
      | Some (Fulfilled v) \<Rightarrow>
          (case promise_all ps of Inl err \<Rightarrow> Inl err | Inr vs \<Rightarrow> Inr (v # vs))
      | None \<Rightarrow>
          (case promise_all ps of Inl err \<Rightarrow> Inl err | Inr vs \<Rightarrow> Inr (NotArray # vs)))"

text \<open>\<open>sourceResults.forEach(items => { if (Array.isArray(items)) results.push(...items); })\<close>.\<close>

fun push_results :: "js_value list \<Rightarrow> item list \<Rightarrow> item list" where
  "push_results [] results = results"
| "push_results (items # sourceResults) results =
     push_results sourceResults
       (case items of Array xs \<Rightarrow> results @ xs | NotArray \<Rightarrow> results)"

text \<open>\<open>search\<close> is \<open>async\<close>: \<open>Inr\<close> is the value its promise resolves to, \<open>Inl\<close> a rejection.\<close>

definition search :: "DataManager \<Rightarrow> string \<Rightarrow> string list \<Rightarrow> js_error + item list" where
  "search dm query sources =
     (let results = [];
          activeSources = (if ''all'' \<in> set sources then map fst (searchProviders dm) else sources)
      in case map_throwing (search_source dm query) activeSources of
           Inl err \<Rightarrow> Inl err
         | Inr promises \<Rightarrow>
             (case promise_all promises of
                Inl err \<Rightarrow> Inl err
              | Inr sourceResults \<Rightarrow> Inr (rankResults (push_results sourceResults results) query)))"

section \<open>CosmosVisualizer.performSearch\<close>

text \<open>
  \<open>performSearch\<close> suspends at \<open>await this.dataManager.search(query, sources)\<close>. A call is
  therefore two events: the call itself, which leaves a pending search, and the settling of
  that search, after which the rest of the body runs: on a result, \<open>convertToGraphData\<close> and
  \<open>updateVisualization\<close>, which replaces the displayed graph; on a rejection,
  \<open>console.error\<close>. How long a search takes is not modelled: pending searches may settle
  in any order.
\<close>

record visualizer =
  displayed :: "graphData option"
  pending :: "(string \<times> string list) list"
  loading :: bool

datatype event = PerformSearch string "string list" | Settle nat

definition visualizer_init :: visualizer where
  "visualizer_init = \<lparr>displayed = None, pending = [], loading = False\<rparr>"

definition drop_nth :: "nat \<Rightarrow> 'a list \<Rightarrow> 'a list" where
  "drop_nth i xs = take i xs @ drop (Suc i) xs"

fun step :: "DataManager \<Rightarrow> event \<Rightarrow> visualizer \<Rightarrow> visualizer" where
  "step dm (PerformSearch query sources) v =
     v\<lparr>loading := True, pending := pending v @ [(query, sources)]\<rparr>"
| "step dm (Settle i) v =
     (if i < length (pending v)
      then (let (query, sources) = pending v ! i;
                v = v\<lparr>pending := drop_nth i (pending v)\<rparr>
            in case search dm query sources of
                 Inr results \<Rightarrow> v\<lparr>displayed := Some (convertToGraphData results), loading := False\<rparr>
               | Inl err \<Rightarrow> v\<lparr>loading := False\<rparr>)
      else v)"

fun run :: "DataManager \<Rightarrow> event list \<Rightarrow> visualizer \<Rightarrow> visualizer" where
  "run dm [] v = v"
| "run dm (e # es) v = run dm es (step dm e v)"

section \<open>Reference notions for the search\<close>

text \<open>The sources searched, and the records one source contributes to the merged list.\<close>

definition active_sources :: "DataManager \<Rightarrow> string list \<Rightarrow> string list" where
  "active_sources dm sources =
     (if ''all'' \<in> set sources then map fst (searchProviders dm) else sources)"

definition source_records :: "DataManager \<Rightarrow> string \<Rightarrow> string \<Rightarrow> item list" where
  "source_records dm query source =
     (case map_of (searchProviders dm) source of
        None \<Rightarrow> []
      | Some p \<Rightarrow> (case p query of
                    Fulfilled (Array xs) \<Rightarrow> xs
                  | Fulfilled NotArray \<Rightarrow> []
                  | Rejected err \<Rightarrow> []))"

text \<open>The entry of \<open>promises\<close> for a source that does not throw, and the value it settles to.\<close>

definition source_promise :: "DataManager \<Rightarrow> string \<Rightarrow> string \<Rightarrow> promise option" where
  "source_promise dm query source =
     map_option (\<lambda>p. catch_empty (p query)) (map_of (searchProviders dm) source)"

definition source_value :: "DataManager \<Rightarrow> string \<Rightarrow> string \<Rightarrow> js_value" where
  "source_value dm query source =
     (case source_promise dm query source of
        None \<Rightarrow> NotArray
      | Some (Fulfilled v) \<Rightarrow> v
      | Some (Rejected err) \<Rightarrow> NotArray)"

text \<open>The graph that \<open>performSearch\<close> displays once the search for a query has resolved.\<close>

definition search_graph :: "DataManager \<Rightarrow> string \<Rightarrow> string list \<Rightarrow> graphData option" where
  "search_graph dm query sources =
     (case search dm query sources of
        Inr results \<Rightarrow> Some (convertToGraphData results)
      | Inl err \<Rightarrow> None)"

section \<open>Binary64 arithmetic\<close>

text \<open>
  A JavaScript number is an IEEE 754 binary64 value, and \<open>+\<close>, \<open>*\<close> and \<open>/\<close> round the exact
  result to the nearest such value, ties to the one with an even significand. \<open>fl\<close> is this
  rounding on the reals of magnitude below \<open>2^1024\<close> (the computations modelled here stay
  below \<open>128\<close>): the spacing of the values around \<open>x\<close> is \<open>2^(e - 52)\<close>, where
  \<open>2^e \<le> |x| < 2^(e + 1)\<close>, and never less than \<open>2^(-1074)\<close>.
\<close>

function bit_length :: "int \<Rightarrow> nat" where
  "bit_length n = (if n \<le> 0 then 0 else Suc (bit_length (n div 2)))"
  by pat_completeness auto
termination
  by (relation "measure nat") auto

declare bit_length.simps [simp del]

definition pow2 :: "int \<Rightarrow> real" where
  "pow2 e = (if 0 \<le> e then 2 ^ nat e else 1 / 2 ^ nat (- e))"

text \<open>For \<open>x > 0\<close>, the \<open>e\<close> with \<open>2^e \<le> x < 2^(e + 1)\<close>.\<close>

definition exponent :: "real \<Rightarrow> int" where
  "exponent x =
     (if 1 \<le> x then int (bit_length \<lfloor>x\<rfloor>) - 1
      else - int (bit_length (\<lceil>1 / x\<rceil> - 1)))"

definition round_half_even :: "real \<Rightarrow> int" where
  "round_half_even x =
     (let f = \<lfloor>x\<rfloor>; r = x - of_int f
      in if r < 1 / 2 then f else if 1 / 2 < r then f + 1 else if even f then f else f + 1)"

definition fl :: "real \<Rightarrow> real" where
  "fl x =
     (if x = 0 then 0
      else (let ulp = pow2 (max (exponent \<bar>x\<bar> - 52) (- 1074))
            in sgn x * of_int (round_half_even (\<bar>x\<bar> / ulp)) * ulp))"

section \<open>DataManager.calculateRelevance on code units and doubles\<close>

text \<open>
  A JavaScript string is a sequence of UTF-16 code units, \<open>toLowerCase\<close> follows Unicode, the
  class \<open>\s\<close> has members beyond ASCII, and the score is a double. \<open>calculateRelevance_in\<close>
  is the function with all of these as parameters: the type \<open>'c\<close> of the code units,
  \<open>lower\<close> for \<open>toLowerCase\<close>, \<open>space\<close> for the class \<open>\s\<close>, \<open>blank\<close> for the space of the
  template string, and the arithmetic on the type \<open>'n\<close> of the numbers. \<open>calculateRelevance\<close>
  is its instance at ASCII strings and exact reals.
\<close>

record 'n arithmetic =
  num_zero :: 'n
  num_half :: 'n
  num_one :: 'n
  num_add :: "'n \<Rightarrow> 'n \<Rightarrow> 'n"
  num_share :: "nat \<Rightarrow> 'n"
  num_min :: "'n \<Rightarrow> 'n \<Rightarrow> 'n"

text \<open>
  The arithmetic of the code: \<open>0\<close>, \<open>0.5\<close>, \<open>1\<close>, \<open>a + b\<close>, \<open>0.3 / n\<close> and \<open>Math.min(a, b)\<close>
  on doubles; and the same on exact reals.
\<close>

definition double_arith :: "real arithmetic" where
  "double_arith =
     \<lparr>num_zero = 0, num_half = 1 / 2, num_one = 1,
      num_add = (\<lambda>a b. fl (a + b)),
      num_share = (\<lambda>n. fl (fl (3 / 10) / real n)),
      num_min = min\<rparr>"

definition real_arith :: "real arithmetic" where
  "real_arith =
     \<lparr>num_zero = 0, num_half = 0.5, num_one = 1,
      num_add = (\<lambda>a b. a + b),
      num_share = (\<lambda>n. 0.3 / real n),
      num_min = min\<rparr>"

function split_at :: "('c \<Rightarrow> bool) \<Rightarrow> 'c list \<Rightarrow> 'c list \<Rightarrow> 'c list list" where
  "split_at space cur [] = [cur]"
| "split_at space cur (c # cs) =
     (if space c then cur # split_at space [] (dropWhile space cs)
      else split_at space (cur @ [c]) cs)"
  by pat_completeness auto
termination
  by (relation "measure (\<lambda>(space, cur, s). length s)")
     (auto simp: less_Suc_eq_le length_dropWhile_le)

text \<open>\<open>x || ''\<close> on an optional string.\<close>

definition or_empty :: "'c list option \<Rightarrow> 'c list" where
  "or_empty x = (case x of None \<Rightarrow> [] | Some v \<Rightarrow> if v = [] then [] else v)"

definition candidate_text_in ::
  "('c list \<Rightarrow> 'c list) \<Rightarrow> 'c \<Rightarrow> 'c list option \<Rightarrow> 'c list option \<Rightarrow> 'c list" where
  "candidate_text_in lower blank name description =
     lower (or_empty name @ [blank] @ or_empty description)"

fun score_words_in ::
  "'n arithmetic \<Rightarrow> 'c list \<Rightarrow> nat \<Rightarrow> 'c list list \<Rightarrow> 'n \<Rightarrow> 'n" where
  "score_words_in ar text n [] score = score"
| "score_words_in ar text n (word # ws) score =
     score_words_in ar text n ws
       (if str_includes text word then num_add ar score (num_share ar n) else score)"

definition calculateRelevance_in ::
  "'n arithmetic \<Rightarrow> ('c list \<Rightarrow> 'c list) \<Rightarrow> ('c \<Rightarrow> bool) \<Rightarrow> 'c \<Rightarrow>
     'c list \<Rightarrow> 'c list option \<Rightarrow> 'c list option \<Rightarrow> 'n" where
  "calculateRelevance_in ar lower space blank query name description =
     (let queryLower = lower query;
          text = candidate_text_in lower blank name description;
          score = num_zero ar;
          score = (if str_includes text queryLower then num_add ar score (num_half ar) else score);
          words = split_at space [] queryLower;
          score = score_words_in ar text (length words) words score
      in num_min ar score (num_one ar))"

section \<open>Reference notions for the relevance\<close>

text \<open>
  The whitespace-delimited words of a string: its maximal runs of characters that are not
  whitespace, in order.
\<close>

fun words_from :: "('c \<Rightarrow> bool) \<Rightarrow> 'c list \<Rightarrow> 'c list \<Rightarrow> 'c list list" where
  "words_from space cur [] = (if cur = [] then [] else [cur])"
| "words_from space cur (c # cs) =
     (if space c then (if cur = [] then words_from space [] cs else cur # words_from space [] cs)
      else words_from space (cur @ [c]) cs)"

definition whitespace_words :: "('c \<Rightarrow> bool) \<Rightarrow> 'c list \<Rightarrow> 'c list list" where
  "whitespace_words space s = words_from space [] s"

text \<open>
  The words the code counts: the whitespace-delimited words, with an empty word in front when
  the string is empty or starts with whitespace, and an empty word behind when it ends with
  whitespace.
\<close>

definition counted_words :: "('c \<Rightarrow> bool) \<Rightarrow> 'c list \<Rightarrow> 'c list list" where
  "counted_words space s =
     (case s of [] \<Rightarrow> [[]] | c # cs \<Rightarrow> if space c then [[]] else [])
     @ whitespace_words space s
     @ (if s \<noteq> [] \<and> space (last s) then [[]] else [])"

text \<open>
  The relevance as the specification words it, for a given notion of the words of the query:
  \<open>0.5\<close> if the lowercased text contains the lowercased query, else \<open>0\<close>; to this, \<open>0.3\<close>
  divided by the number of words is added for each word, in order, that occurs in the text;
  the result is the minimum of that sum and \<open>1\<close>.
\<close>

definition relevance_formula ::
  "'n arithmetic \<Rightarrow> ('c list \<Rightarrow> 'c list) \<Rightarrow> 'c \<Rightarrow> ('c list \<Rightarrow> 'c list list) \<Rightarrow>
     'c list \<Rightarrow> 'c list option \<Rightarrow> 'c list option \<Rightarrow> 'n" where
  "relevance_formula ar lower blank words_of query name description =
     (let q = lower query;
          t = lower ((case name of None \<Rightarrow> [] | Some v \<Rightarrow> v) @ [blank]
                     @ (case description of None \<Rightarrow> [] | Some v \<Rightarrow> v));
          ws = words_of q;
          s = foldl (num_add ar) (if sublist q t then num_half ar else num_zero ar)
                (map (\<lambda>w. num_share ar (length ws)) (filter (\<lambda>w. sublist w t) ws))
      in num_min ar s (num_one ar))"

section \<open>Properties of the relevance score\<close>






lemma score_words_mono: "score \<le> score_words text n ws score"
proof (induction ws arbitrary: score)
  case Nil
  show ?case by simp
next
  case (Cons word ws)
  have "score \<le> (if str_includes text word then score + 0.3 / real n else score)"
    by simp
  also have "\<dots> \<le> score_words text n ws (if str_includes text word then score + 0.3 / real n else score)"
    by (rule Cons.IH)
  finally show ?case by simp
qed

text \<open>
  The pieces of \<open>split(/\s+/)\<close> contain no whitespace, and for a query that is not empty
  and neither starts nor ends with whitespace (as \<open>searchInput.value.trim()\<close> delivers it)
  no piece is empty: the pieces are then the words of the query.
\<close>

lemma split_ws_no_space:
  assumes "\<forall>c\<in>set cur. \<not> is_space c"
  shows "\<forall>w\<in>set (split_ws cur s). \<forall>c\<in>set w. \<not> is_space c"
  using assms
proof (induction cur s rule: split_ws.induct)
  case (1 cur)
  then show ?case by simp
next
  case (2 cur c cs)
  show ?case
  proof (cases "is_space c")
    case True
    have "\<forall>w\<in>set (split_ws [] (dropWhile is_space cs)). \<forall>c\<in>set w. \<not> is_space c"
      by (rule "2.IH"(1)[OF True]) simp
    with True "2.prems" show ?thesis by simp
  next
    case False
    have "\<forall>w\<in>set (split_ws (cur @ [c]) cs). \<forall>c\<in>set w. \<not> is_space c"
      using False "2.prems" by (intro "2.IH"(2)) simp_all
    with False show ?thesis by simp
  qed
qed

lemma split_ws_nonempty:
  assumes "cur \<noteq> [] \<or> (s \<noteq> [] \<and> \<not> is_space (hd s))" "s = [] \<or> \<not> is_space (last s)"
  shows "[] \<notin> set (split_ws cur s)"
  using assms
proof (induction cur s rule: split_ws.induct)
  case (1 cur)
  then show ?case by simp
next
  case (2 cur c cs)
  show ?case
  proof (cases "is_space c")
    case True
    with "2.prems" have cur: "cur \<noteq> []" by simp
    from True "2.prems" have cs: "cs \<noteq> []" "\<not> is_space (last cs)"
      by (auto split: if_splits)
    then have "last cs \<in> set cs" by simp
    with cs have ne: "dropWhile is_space cs \<noteq> []"
      by (auto simp: dropWhile_eq_Nil_conv)
    then have "\<not> is_space (hd (dropWhile is_space cs))" by (rule hd_dropWhile)
    moreover have "last (dropWhile is_space cs) = last cs"
      using ne cs by (metis append_take_drop_id last_appendR takeWhile_dropWhile_id)
    ultimately have "[] \<notin> set (split_ws [] (dropWhile is_space cs))"
      using ne cs by (intro "2.IH"(1)[OF True]) simp_all
    with True cur show ?thesis by simp
  next
    case False
    with "2.prems" have "cs = [] \<or> \<not> is_space (last cs)"
      by (auto split: if_splits)
    then have "[] \<notin> set (split_ws (cur @ [c]) cs)"
      by (intro "2.IH"(2)[OF False]) simp_all
    with False show ?thesis by simp
  qed
qed

lemma split_whitespace_words:
  assumes "query \<noteq> []" "\<not> is_space (hd query)" "\<not> is_space (last query)"
  shows "\<forall>w\<in>set (split_whitespace query). w \<noteq> [] \<and> (\<forall>c\<in>set w. \<not> is_space c)"
proof -
  have "[] \<notin> set (split_ws [] query)"
    using assms by (intro split_ws_nonempty) simp_all
  moreover have "\<forall>w\<in>set (split_ws [] query). \<forall>c\<in>set w. \<not> is_space c"
    by (rule split_ws_no_space) simp
  ultimately show ?thesis
    unfolding split_whitespace_def by metis
qed






section \<open>Properties of the ranking\<close>

lemma compare_relevance_le: "compare_relevance a b \<le> 0 \<longleftrightarrow> rel_key b \<le> rel_key a"
  by (simp add: compare_relevance_def)

lemma set_insert_sorted: "set (insert_sorted cmp x ys) = insert x (set ys)"
  by (induction ys) auto

lemma length_insert_sorted: "length (insert_sorted cmp x ys) = Suc (length ys)"
  by (induction ys) auto

lemma set_js_sort: "set (js_sort cmp xs) = set xs"
  by (induction xs) (auto simp: js_sort_def set_insert_sorted)

lemma length_js_sort: "length (js_sort cmp xs) = length xs"
  by (induction xs) (auto simp: js_sort_def length_insert_sorted)

lemma sorted_insert_sorted:
  "sorted_wrt (\<lambda>a b. rel_key b \<le> rel_key a) ys \<Longrightarrow>
   sorted_wrt (\<lambda>a b. rel_key b \<le> rel_key a) (insert_sorted compare_relevance x ys)"
  by (induction ys) (auto simp: compare_relevance_le set_insert_sorted)

lemma sorted_js_sort:
  "sorted_wrt (\<lambda>a b. rel_key b \<le> rel_key a) (js_sort compare_relevance xs)"
proof (induction xs)
  case Nil
  show ?case by (simp add: js_sort_def)
next
  case (Cons x xs)
  then show ?case
    using sorted_insert_sorted[of "js_sort compare_relevance xs" x]
    by (simp add: js_sort_def)
qed

lemma filter_insert_sorted:
  "filter (\<lambda>y. rel_key y = v) (insert_sorted compare_relevance x ys) =
     (if rel_key x = v then x # filter (\<lambda>y. rel_key y = v) ys
      else filter (\<lambda>y. rel_key y = v) ys)"
  by (induction ys) (auto simp: compare_relevance_le)

lemma js_sort_stable:
  "filter (\<lambda>y. rel_key y = v) (js_sort compare_relevance xs) = filter (\<lambda>y. rel_key y = v) xs"
  by (induction xs) (auto simp: js_sort_def filter_insert_sorted)

text \<open>The model of the sort is the library's stable sort by descending key.\<close>

lemma insert_sorted_insort_key:
  "insert_sorted compare_relevance x ys = insort_key (\<lambda>r. - rel_key r) x ys"
  by (induction ys) (simp_all add: compare_relevance_le)

lemma js_sort_sort_key: "js_sort compare_relevance xs = sort_key (\<lambda>r. - rel_key r) xs"
  by (induction xs) (simp_all add: js_sort_def insert_sorted_insort_key)


lemma calculateRelevance_range: "0 \<le> calculateRelevance query result \<and> calculateRelevance query result \<le> 1"
proof -
  let ?t = "candidate_text result"
  let ?ws = "split_whitespace (toLowerCase query)"
  let ?s0 = "if str_includes ?t (toLowerCase query) then 0 + 0.5 else (0::real)"
  have "0 \<le> ?s0" by simp
  also have "?s0 \<le> score_words ?t (length ?ws) ?ws ?s0" by (rule score_words_mono)
  finally show ?thesis by (simp add: calculateRelevance_def Let_def)
qed

lemma rel_key_with_relevance: "rel_key (with_relevance query r) = calculateRelevance query r"
  by (simp add: rel_key_def with_relevance_def num_or_def)

lemma item_relevance_with_relevance:
  "item_relevance (with_relevance query r) = Some (calculateRelevance query r)"
  by (simp add: with_relevance_def)

lemma ranked_relevance:
  assumes "r \<in> set (js_sort compare_relevance (map (with_relevance query) results))"
  shows "item_relevance r = Some (rel_key r) \<and> 0 \<le> rel_key r \<and> rel_key r \<le> 1"
proof -
  from assms obtain r0 where "r = with_relevance query r0"
    by (auto simp: set_js_sort)
  then show ?thesis
    using calculateRelevance_range[of query r0]
    by (simp add: rel_key_with_relevance item_relevance_with_relevance)
qed

lemma ranked_filter_eq:
  assumes "\<forall>r\<in>set xs. item_relevance r = Some (rel_key r)"
  shows "filter (\<lambda>r. item_relevance r = Some v) xs = filter (\<lambda>r. rel_key r = v) xs"
  using assms by (intro filter_cong) auto

text \<open>
  Claim C2. The output of \<open>rankResults\<close> has at most 100 entries, every entry carries a
  relevance in \<open>[0, 1]\<close>, the relevances are non-increasing along the output, and for
  every relevance value the entries with that value appear in the order of the input. The
  output is the first 100 entries of the list of all input records, sorted stably.
\<close>

theorem rankResults_properties:
  "length (rankResults results query) \<le> 100
   \<and> (\<exists>rels. map item_relevance (rankResults results query) = map Some rels
          \<and> sorted_wrt (\<ge>) rels \<and> (\<forall>v\<in>set rels. 0 \<le> v \<and> v \<le> 1))
   \<and> (\<forall>v. prefix (filter (\<lambda>r. item_relevance r = Some v) (rankResults results query))
                    (filter (\<lambda>r. item_relevance r = Some v) (map (with_relevance query) results)))
   \<and> (\<exists>sorted_all rels_all.
          rankResults results query = take 100 sorted_all
        \<and> length sorted_all = length results
        \<and> map item_relevance sorted_all = map Some rels_all
        \<and> sorted_wrt (\<ge>) rels_all
        \<and> (\<forall>v. filter (\<lambda>r. item_relevance r = Some v) sorted_all =
                 filter (\<lambda>r. item_relevance r = Some v) (map (with_relevance query) results)))"
proof -
  let ?inp = "map (with_relevance query) results"
  let ?all = "js_sort compare_relevance ?inp"
  let ?out = "rankResults results query"
  have out: "?out = take 100 ?all" by (simp add: rankResults_def)
  have rel: "\<forall>r\<in>set ?all. item_relevance r = Some (rel_key r) \<and> 0 \<le> rel_key r \<and> rel_key r \<le> 1"
    using ranked_relevance by blast
  have rel_inp: "\<forall>r\<in>set ?inp. item_relevance r = Some (rel_key r)"
    using rel by (simp add: set_js_sort)
  have map_all: "map item_relevance ?all = map Some (map rel_key ?all)"
    using rel by simp
  have sorted_all: "sorted_wrt (\<ge>) (map rel_key ?all)"
    using sorted_js_sort[of ?inp] by (simp add: sorted_wrt_map)
  have stable_all: "filter (\<lambda>r. item_relevance r = Some v) ?all =
       filter (\<lambda>r. item_relevance r = Some v) ?inp" for v
  proof -
    have "filter (\<lambda>r. item_relevance r = Some v) ?all = filter (\<lambda>r. rel_key r = v) ?all"
      using rel by (intro ranked_filter_eq) blast
    also have "\<dots> = filter (\<lambda>r. rel_key r = v) ?inp" by (rule js_sort_stable)
    also have "\<dots> = filter (\<lambda>r. item_relevance r = Some v) ?inp"
      using rel_inp by (rule ranked_filter_eq[symmetric])
    finally show ?thesis .
  qed
  have c1: "length ?out \<le> 100" by (simp add: out)
  have set_out: "set ?out \<subseteq> set ?all" unfolding out by (rule set_take_subset)
  have c2: "\<exists>rels. map item_relevance ?out = map Some rels
          \<and> sorted_wrt (\<ge>) rels \<and> (\<forall>v\<in>set rels. 0 \<le> v \<and> v \<le> 1)"
  proof (intro exI[of _ "map rel_key ?out"] conjI)
    show "map item_relevance ?out = map Some (map rel_key ?out)"
      using rel set_out by auto
    have "map rel_key ?out = take 100 (map rel_key ?all)"
      by (simp add: out take_map)
    then show "sorted_wrt (\<ge>) (map rel_key ?out)"
      using sorted_all by (simp add: sorted_wrt_take)
    show "\<forall>v\<in>set (map rel_key ?out). 0 \<le> v \<and> v \<le> 1"
      using rel set_out by auto
  qed
  have c3: "\<forall>v. prefix (filter (\<lambda>r. item_relevance r = Some v) ?out)
                    (filter (\<lambda>r. item_relevance r = Some v) ?inp)"
  proof
    fix v
    have "prefix ?out ?all" unfolding out by (rule take_is_prefix)
    then have "prefix (filter (\<lambda>r. item_relevance r = Some v) ?out)
                      (filter (\<lambda>r. item_relevance r = Some v) ?all)"
      by (rule filter_mono_prefix)
    then show "prefix (filter (\<lambda>r. item_relevance r = Some v) ?out)
                    (filter (\<lambda>r. item_relevance r = Some v) ?inp)"
      by (simp only: stable_all)
  qed
  have c4: "\<exists>sorted_all rels_all.
          ?out = take 100 sorted_all
        \<and> length sorted_all = length results
        \<and> map item_relevance sorted_all = map Some rels_all
        \<and> sorted_wrt (\<ge>) rels_all
        \<and> (\<forall>v. filter (\<lambda>r. item_relevance r = Some v) sorted_all =
                 filter (\<lambda>r. item_relevance r = Some v) ?inp)"
    using out map_all sorted_all stable_all
    by (intro exI[of _ ?all] exI[of _ "map rel_key ?all"]) (simp add: length_js_sort)
  from c1 c2 c3 c4 show ?thesis by blast
qed

lemma rank_example:
  "map item_name (rankResults [icosa_item 0 ''Lantern'', icosa_item 1 ''Damaged Helmet''] ''helmet'')
     = [Some ''Damaged Helmet'', Some ''Lantern'']"
  by code_simp

theorem rankResults_properties_witness:
  "map item_name (rankResults [icosa_item 0 ''Lantern'', icosa_item 1 ''Damaged Helmet''] ''helmet'')
     = [Some ''Damaged Helmet'', Some ''Lantern'']
   \<and> (\<exists>rels. map item_relevance
                 (rankResults [icosa_item 0 ''Lantern'', icosa_item 1 ''Damaged Helmet''] ''helmet'')
               = map Some rels
          \<and> sorted_wrt (\<ge>) rels \<and> (\<forall>v\<in>set rels. 0 \<le> v \<and> v \<le> 1))"
  using rankResults_properties[of "[icosa_item 0 ''Lantern'', icosa_item 1 ''Damaged Helmet'']" "''helmet''"]
    rank_example
  by blast


section \<open>Properties of the graph\<close>

subsection \<open>Nodes\<close>

lemma create_nodes_fst: "fst (create_nodes items i ns m) = ns @ node_list items i"
  by (induction items arbitrary: i ns m) (simp_all add: Let_def)

lemma create_nodes_snd:
  "snd (create_nodes items i ns m) = m ++ map_of (rev (map (\<lambda>n. (node_id n, n)) (node_list items i)))"
proof (induction items arbitrary: i ns m)
  case Nil
  show ?case by simp
next
  case (Cons item items)
  show ?case
    by (simp add: Cons.IH Let_def map_add_def fun_eq_iff split: option.splits)
qed

lemma length_node_list: "length (node_list items i) = length items"
  by (induction items arbitrary: i) simp_all

lemma nth_node_list: "k < length items \<Longrightarrow> node_list items i ! k = make_node (items ! k) (i + k)"
proof (induction items arbitrary: i k)
  case Nil
  then show ?case by simp
next
  case (Cons item items)
  then show ?case by (cases k) simp_all
qed

lemma node_id_make_node: "node_id (make_node item i) = record_id item i"
  by (simp add: make_node_def record_id_def spread_def str_or_def split: option.splits)

lemma graph_nodes_convert: "graph_nodes (convertToGraphData items) = node_list items 0"
proof -
  obtain ns m where c: "create_nodes items 0 [] Map.empty = (ns, m)"
    by (cases "create_nodes items 0 [] Map.empty")
  have "ns = node_list items 0"
    using create_nodes_fst[of items 0 "[]" Map.empty] c by simp
  then show ?thesis
    by (simp add: convertToGraphData_def c Let_def)
qed

lemma map_of_rev_last:
  "map_of (rev (map (\<lambda>n. (f n, n)) xs)) k =
     (if filter (\<lambda>n. f n = k) xs = [] then None else Some (last (filter (\<lambda>n. f n = k) xs)))"
proof (induction xs rule: rev_induct)
  case Nil
  show ?case by simp
next
  case (snoc x xs)
  then show ?case by simp
qed

lemma nodeMap_last_write:
  "snd (create_nodes items 0 [] Map.empty) k =
     (if filter (\<lambda>n. node_id n = k) (node_list items 0) = [] then None
      else Some (last (filter (\<lambda>n. node_id n = k) (node_list items 0))))"
  by (simp add: create_nodes_snd map_of_rev_last)

lemma nodeMap_dom:
  "snd (create_nodes items 0 [] Map.empty) k \<noteq> None \<longleftrightarrow> k \<in> node_id ` set (node_list items 0)"
  by (auto simp: nodeMap_last_write filter_empty_conv)

subsection \<open>Explicit links\<close>

lemma relationship_links_eq:
  "relationship_links item m rels links =
     links @ map (rel_link item) (filter (\<lambda>rel. nodeMap_has m (rel_target rel)) rels)"
  by (induction rels arbitrary: links) (simp_all add: rel_link_def)

lemma create_links_eq:
  "create_links items m links =
     links @ concat (map (\<lambda>item. case item_relationships item of
                                     None \<Rightarrow> []
                                   | Some rels \<Rightarrow> map (rel_link item)
                                        (filter (\<lambda>rel. nodeMap_has m (rel_target rel)) rels)) items)"
  by (induction items arbitrary: links) (simp_all add: relationship_links_eq split: option.splits)

lemma explicit_link_origin:
  assumes "l \<in> set (explicit_links items)"
  shows "\<exists>item\<in>set items. \<exists>rels. item_relationships item = Some rels \<and>
           (\<exists>rel\<in>set rels. nodeMap_has (snd (create_nodes items 0 [] Map.empty)) (rel_target rel)
               \<and> l = rel_link item rel)"
proof -
  let ?m = "snd (create_nodes items 0 [] Map.empty)"
  from assms obtain item where item: "item \<in> set items"
    and l: "l \<in> set (case item_relationships item of
                          None \<Rightarrow> []
                        | Some rels \<Rightarrow> map (rel_link item)
                             (filter (\<lambda>rel. nodeMap_has ?m (rel_target rel)) rels))"
    by (auto simp: explicit_links_def create_links_eq)
  from l obtain rels where rels: "item_relationships item = Some rels"
    by (cases "item_relationships item") auto
  with l obtain rel where "rel \<in> set rels" "nodeMap_has ?m (rel_target rel)" "l = rel_link item rel"
    by auto
  with item rels show ?thesis by blast
qed

subsection \<open>Fallback links\<close>

lemma length_chain: "length (chain grp) = length grp - 1"
  by (simp add: chain_def)

lemma nth_chain:
  "i < length grp - 1 \<Longrightarrow>
   chain grp ! i = \<lparr>link_source = Some (node_id (grp ! i)), link_target = Some (node_id (grp ! (i + 1))),
                    link_value = 0.5\<rparr>"
  by (simp add: chain_def nth_tl)

lemma chain_links_eq: "chain_links grp i links = links @ drop i (chain grp)"
proof (induction grp i links rule: chain_links.induct)
  case (1 grp i links)
  show ?case
  proof (cases "int i < int (length grp) - 1")
    case True
    then have i: "i < length grp - 1" by linarith
    then have "drop i (chain grp) = chain grp ! i # drop (Suc i) (chain grp)"
      by (simp add: Cons_nth_drop_Suc length_chain)
    then show ?thesis
      using True i "1.IH" by (subst chain_links.simps) (simp add: nth_chain)
  next
    case False
    then have "length (chain grp) \<le> i" by (simp add: length_chain)
    then show ?thesis
      using False by (subst chain_links.simps) simp
  qed
qed

lemma connect_groups_eq:
  "connect_groups typeGroups links = links @ concat (map (\<lambda>(t, grp). chain grp) typeGroups)"
  by (induction typeGroups links rule: connect_groups.induct) (simp_all add: chain_links_eq)

lemma set_types_in_order: "set (types_in_order ns) = node_type ` set ns"
  by (induction ns) auto

lemma types_in_order_snoc:
  "types_in_order (ns @ [n]) =
     (if node_type n \<in> node_type ` set ns then types_in_order ns
      else types_in_order ns @ [node_type n])"
  by (induction ns) (auto simp: set_types_in_order)

lemma map_of_grouped_None: "map_of (grouped ns) t = None \<longleftrightarrow> t \<notin> node_type ` set ns"
  by (simp add: grouped_def map_of_eq_None_iff image_image set_types_in_order)

lemma group_node_grouped: "group_node n (grouped ns) = grouped (ns @ [n])"
proof (cases "node_type n \<in> node_type ` set ns")
  case True
  then have "map_of (grouped ns) (node_type n) \<noteq> None"
    by (simp add: map_of_grouped_None)
  then have "group_node n (grouped ns) =
      map (\<lambda>(t, g). if t = node_type n then (t, g @ [n]) else (t, g)) (grouped ns)"
    by (simp add: group_node_def)
  also have "\<dots> = grouped (ns @ [n])"
    using True by (simp add: grouped_def types_in_order_snoc)
  finally show ?thesis .
next
  case False
  then have "\<forall>m\<in>set ns. node_type m \<noteq> node_type n"
    by (metis imageI)
  then have empty: "filter (\<lambda>m. node_type m = node_type n) ns = []"
    by (simp add: filter_empty_conv)
  from False have "map_of (grouped ns) (node_type n) = None"
    by (simp add: map_of_grouped_None)
  then have "group_node n (grouped ns) =
      map (\<lambda>(t, g). if t = node_type n then (t, g @ [n]) else (t, g))
        (grouped ns @ [(node_type n, [])])"
    by (simp add: group_node_def)
  also have "\<dots> = grouped (ns @ [n])"
    using False empty by (simp add: grouped_def types_in_order_snoc)
  finally show ?thesis .
qed

lemma group_nodes_grouped: "group_nodes ns (grouped seen) = grouped (seen @ ns)"
  by (induction ns arbitrary: seen) (simp_all add: group_node_grouped)

lemma fallback_links_eq: "connect_groups (group_nodes ns []) [] = fallback_links ns"
proof -
  have "group_nodes ns (grouped []) = grouped ns"
    using group_nodes_grouped[of ns "[]"] by simp
  then have "group_nodes ns [] = grouped ns" by (simp add: grouped_def)
  then show ?thesis
    by (simp add: connect_groups_eq fallback_links_def grouped_def comp_def)
qed

lemma graph_links_convert:
  "graph_links (convertToGraphData items) =
     (if explicit_links items = [] \<and> length items > 1
      then fallback_links (node_list items 0) else explicit_links items)"
proof -
  obtain ns m where c: "create_nodes items 0 [] Map.empty = (ns, m)"
    by (cases "create_nodes items 0 [] Map.empty")
  have "ns = node_list items 0"
    using create_nodes_fst[of items 0 "[]" Map.empty] c by simp
  with c have c': "create_nodes items 0 [] Map.empty = (node_list items 0, m)"
    by simp
  have m: "create_links items m [] = explicit_links items"
    using c by (simp add: explicit_links_def)
  show ?thesis
    by (simp add: convertToGraphData_def c' m fallback_links_eq length_node_list Let_def)
qed

subsection \<open>The nodes of the graph\<close>

text \<open>
  Claim C3, amended. \<open>convertToGraphData\<close> returns one node per input record, in input order:
  the \<open>i\<close>-th node is built from the \<open>i\<close>-th record and carries that record's id, or
  \<open>node-i\<close> when the record has none. Records that share an id all stay in the node list;
  only the id-keyed \<open>nodeMap\<close>, which link creation consults, keeps the last node written
  under each id.
\<close>

theorem convertToGraphData_nodes:
  "length (graph_nodes (convertToGraphData items)) = length items
   \<and> (\<forall>i<length items. graph_nodes (convertToGraphData items) ! i = make_node (items ! i) i
                         \<and> node_id (graph_nodes (convertToGraphData items) ! i) = record_id (items ! i) i)
   \<and> (\<forall>k. snd (create_nodes items 0 [] Map.empty) k =
          (if filter (\<lambda>n. node_id n = k) (graph_nodes (convertToGraphData items)) = [] then None
           else Some (last (filter (\<lambda>n. node_id n = k) (graph_nodes (convertToGraphData items))))))"
  by (simp add: graph_nodes_convert length_node_list nth_node_list node_id_make_node nodeMap_last_write)

theorem convertToGraphData_nodes_witness:
  "(1::nat) < length [empty_item\<lparr>item_id := Some ''a''\<rparr>,
                      empty_item\<lparr>item_id := Some ''a'', item_name := Some ''dup''\<rparr>]
   \<and> node_id (graph_nodes (convertToGraphData
         [empty_item\<lparr>item_id := Some ''a''\<rparr>,
          empty_item\<lparr>item_id := Some ''a'', item_name := Some ''dup''\<rparr>]) ! 1) = ''a''"
proof -
  let ?items = "[empty_item\<lparr>item_id := Some ''a''\<rparr>,
                 empty_item\<lparr>item_id := Some ''a'', item_name := Some ''dup''\<rparr>]"
  have len: "(1::nat) < length ?items" by simp
  have "\<forall>i<length ?items.
          node_id (graph_nodes (convertToGraphData ?items) ! i) = record_id (?items ! i) i"
    using convertToGraphData_nodes[of ?items] by blast
  with len have "node_id (graph_nodes (convertToGraphData ?items) ! 1) = record_id (?items ! 1) 1"
    by blast
  then show ?thesis by (simp add: record_id_def empty_item_def)
qed

text \<open>
  Two records with the id \<open>a\<close> give two nodes with the id \<open>a\<close>, so the node ids of the
  returned graph are not unique.
\<close>

theorem convertToGraphData_duplicate_id_counterexample:
  "map node_id (graph_nodes (convertToGraphData
      [empty_item\<lparr>item_id := Some ''a''\<rparr>,
       empty_item\<lparr>item_id := Some ''a'', item_name := Some ''dup''\<rparr>])) = [''a'', ''a'']
   \<and> \<not> distinct (map node_id (graph_nodes (convertToGraphData
      [empty_item\<lparr>item_id := Some ''a''\<rparr>,
       empty_item\<lparr>item_id := Some ''a'', item_name := Some ''dup''\<rparr>])))"
  by code_simp

subsection \<open>The fallback graph\<close>

lemma chain_member:
  assumes "l \<in> set (chain grp)"
  shows "\<exists>a\<in>set grp. \<exists>b\<in>set grp.
           l = \<lparr>link_source = Some (node_id a), link_target = Some (node_id b), link_value = 0.5\<rparr>"
proof -
  from assms obtain a b where ab: "(a, b) \<in> set (zip grp (tl grp))"
    and l: "l = \<lparr>link_source = Some (node_id a), link_target = Some (node_id b), link_value = 0.5\<rparr>"
    by (auto simp: chain_def)
  from ab have "a \<in> set grp" by (rule set_zip_leftD)
  moreover from ab have "b \<in> set (tl grp)" by (rule set_zip_rightD)
  then have "b \<in> set grp" by (cases grp) auto
  ultimately show ?thesis using l by blast
qed

lemma fallback_member:
  assumes "l \<in> set (fallback_links ns)"
  shows "\<exists>a\<in>set ns. \<exists>b\<in>set ns.
           l = \<lparr>link_source = Some (node_id a), link_target = Some (node_id b), link_value = 0.5\<rparr>"
proof -
  from assms obtain t where "l \<in> set (chain (filter (\<lambda>n. node_type n = t) ns))"
    by (auto simp: fallback_links_def)
  from chain_member[OF this] show ?thesis by auto
qed

lemma explicit_links_none:
  assumes "\<forall>item\<in>set items. item_relationships item = None"
  shows "explicit_links items = []"
  using assms by (simp add: explicit_links_def create_links_eq)

lemma fallback_two:
  assumes "node_type a = node_type b"
  shows "fallback_links [a, b] =
           [\<lparr>link_source = Some (node_id a), link_target = Some (node_id b), link_value = 0.5\<rparr>]"
  using assms by (simp add: fallback_links_def chain_def)

text \<open>
  Claim C5. When the explicit relationships yield no link and there are at least two nodes,
  the links of the graph are the fallback links: nodes grouped by type, groups in order of
  first occurrence, each group chained in node order with strength \<open>0.5\<close>. Otherwise the links
  are the explicit ones, with no fallback link added. Two nodes of one type without explicit
  links get exactly one link, from the first to the second, of strength \<open>0.5\<close>.
\<close>

theorem convertToGraphData_fallback:
  "graph_links (convertToGraphData items) =
     (if explicit_links items = [] \<and> 2 \<le> length (graph_nodes (convertToGraphData items))
      then fallback_links (graph_nodes (convertToGraphData items))
      else explicit_links items)
   \<and> (explicit_links [a, b] = [] \<and> node_type (make_node a 0) = node_type (make_node b 1) \<longrightarrow>
        graph_links (convertToGraphData [a, b]) =
          [\<lparr>link_source = Some (node_id (make_node a 0)), link_target = Some (node_id (make_node b 1)),
            link_value = 0.5\<rparr>])"
proof
  have "2 \<le> length items \<longleftrightarrow> 1 < length items" by linarith
  then show "graph_links (convertToGraphData items) =
     (if explicit_links items = [] \<and> 2 \<le> length (graph_nodes (convertToGraphData items))
      then fallback_links (graph_nodes (convertToGraphData items))
      else explicit_links items)"
    by (simp add: graph_links_convert graph_nodes_convert length_node_list)
next
  show "explicit_links [a, b] = [] \<and> node_type (make_node a 0) = node_type (make_node b 1) \<longrightarrow>
        graph_links (convertToGraphData [a, b]) =
          [\<lparr>link_source = Some (node_id (make_node a 0)), link_target = Some (node_id (make_node b 1)),
            link_value = 0.5\<rparr>]"
    by (simp add: graph_links_convert fallback_two)
qed

theorem convertToGraphData_fallback_witness:
  "explicit_links [icosa_item 0 ''Damaged Helmet'', icosa_item 1 ''Flight Helmet''] = []
   \<and> node_type (make_node (icosa_item 0 ''Damaged Helmet'') 0)
       = node_type (make_node (icosa_item 1 ''Flight Helmet'') 1)
   \<and> graph_links (convertToGraphData [icosa_item 0 ''Damaged Helmet'', icosa_item 1 ''Flight Helmet''])
       = [\<lparr>link_source = Some ''icosa-0'', link_target = Some ''icosa-1'', link_value = 0.5\<rparr>]"
proof -
  let ?a = "icosa_item 0 ''Damaged Helmet''" and ?b = "icosa_item 1 ''Flight Helmet''"
  have e: "explicit_links [?a, ?b] = []"
    by (rule explicit_links_none) (simp add: icosa_item_def empty_item_def)
  have t: "node_type (make_node ?a 0) = node_type (make_node ?b 1)"
    by (simp add: make_node_def icosa_item_def empty_item_def)
  have "graph_links (convertToGraphData [?a, ?b]) =
          [\<lparr>link_source = Some (node_id (make_node ?a 0)), link_target = Some (node_id (make_node ?b 1)),
            link_value = 0.5\<rparr>]"
    using convertToGraphData_fallback[of _ ?a ?b] e t by blast
  moreover have "node_id (make_node ?a 0) = ''icosa-0''" "node_id (make_node ?b 1) = ''icosa-1''"
    by (simp_all add: node_id_make_node record_id_def icosa_item_def empty_item_def digit_char_def)
  ultimately show ?thesis using e t by simp
qed

subsection \<open>Link endpoints\<close>

lemma item_node_id:
  assumes "item \<in> set items" "item_id item = Some s"
  shows "s \<in> node_id ` set (node_list items 0)"
proof -
  from assms(1) obtain k where k: "k < length items" "items ! k = item"
    by (auto simp: in_set_conv_nth)
  then have "node_id (node_list items 0 ! k) = s"
    using assms(2) by (simp add: nth_node_list node_id_make_node record_id_def)
  moreover have "node_list items 0 ! k \<in> set (node_list items 0)"
    using k by (simp add: length_node_list)
  ultimately show ?thesis by blast
qed

lemma convertToGraphData_link_endpoints:
  assumes "l \<in> set (graph_links (convertToGraphData items))"
  shows "(\<exists>t. link_target l = Some t \<and> t \<in> node_id ` set (graph_nodes (convertToGraphData items)))
         \<and> (case link_source l of
               None \<Rightarrow> \<exists>item\<in>set items. item_id item = None
             | Some s \<Rightarrow> s \<in> node_id ` set (graph_nodes (convertToGraphData items)))"
proof (cases "l \<in> set (explicit_links items)")
  case True
  let ?m = "snd (create_nodes items 0 [] Map.empty)"
  from explicit_link_origin[OF True] obtain item rels rel where
    item: "item \<in> set items" and has: "nodeMap_has ?m (rel_target rel)" and l: "l = rel_link item rel"
    by blast
  from has obtain t where t: "rel_target rel = Some t" "?m t \<noteq> None"
    by (auto simp: nodeMap_has_def split: option.splits)
  then have "t \<in> node_id ` set (node_list items 0)"
    using nodeMap_dom[of items t] by blast
  then have tgt: "\<exists>t. link_target l = Some t
                    \<and> t \<in> node_id ` set (graph_nodes (convertToGraphData items))"
    using l t by (simp add: rel_link_def graph_nodes_convert)
  have "case link_source l of
               None \<Rightarrow> \<exists>item\<in>set items. item_id item = None
             | Some s \<Rightarrow> s \<in> node_id ` set (graph_nodes (convertToGraphData items))"
  proof (cases "item_id item")
    case None
    with item l show ?thesis by (auto simp: rel_link_def)
  next
    case (Some s)
    with item have "s \<in> node_id ` set (node_list items 0)" by (rule item_node_id)
    with Some l show ?thesis by (simp add: rel_link_def graph_nodes_convert)
  qed
  with tgt show ?thesis by blast
next
  case False
  with assms have "l \<in> set (fallback_links (node_list items 0))"
    by (simp add: graph_links_convert split: if_splits)
  from fallback_member[OF this] show ?thesis
    by (auto simp: graph_nodes_convert)
qed

text \<open>
  Claim C4 (both endpoints of every link are ids of built nodes) fails on a record that has a
  relationship but no id: its node gets the id \<open>node-0\<close>, while the link takes
  \<open>item.id\<close>, which is undefined, as its source.
\<close>

theorem convertToGraphData_link_source_undefined:
  "graph_links (convertToGraphData
      [empty_item\<lparr>item_relationships := Some [\<lparr>rel_target = Some ''b'', rel_strength = None\<rparr>]\<rparr>,
       empty_item\<lparr>item_id := Some ''b''\<rparr>])
     = [\<lparr>link_source = None, link_target = Some ''b'', link_value = 1\<rparr>]
   \<and> map node_id (graph_nodes (convertToGraphData
      [empty_item\<lparr>item_relationships := Some [\<lparr>rel_target = Some ''b'', rel_strength = None\<rparr>]\<rparr>,
       empty_item\<lparr>item_id := Some ''b''\<rparr>]))
     = [''node-0'', ''b'']"
  by code_simp

subsection \<open>Link strengths\<close>

lemma link_value_rel_link:
  assumes "strengths_in_unit items" "item \<in> set items" "item_relationships item = Some rels"
    "rel \<in> set rels"
  shows "0 \<le> link_value (rel_link item rel) \<and> link_value (rel_link item rel) \<le> 1"
proof -
  from assms have "case rel_strength rel of None \<Rightarrow> True | Some s \<Rightarrow> 0 \<le> s \<and> s \<le> 1"
    unfolding strengths_in_unit_def by force
  then show ?thesis
    by (simp add: rel_link_def num_or_def split: option.splits)
qed

text \<open>
  Claim C8, amended. Every link strength is \<open>0.5\<close> (a fallback link) or the strength of a
  relationship of an input record, with \<open>1\<close> in place of an absent or zero strength; no
  clamping takes place. So all link strengths lie in \<open>[0, 1]\<close> when the strengths the
  records state do.
\<close>

theorem convertToGraphData_strengths:
  "(\<forall>l\<in>set (graph_links (convertToGraphData items)).
      link_value l = 0.5
      \<or> (\<exists>item\<in>set items. \<exists>rels. item_relationships item = Some rels
            \<and> (\<exists>rel\<in>set rels. link_value l = num_or (rel_strength rel) 1)))
   \<and> (strengths_in_unit items \<longrightarrow>
        (\<forall>l\<in>set (graph_links (convertToGraphData items)). 0 \<le> link_value l \<and> link_value l \<le> 1))"
proof -
  have origin: "link_value l = 0.5
      \<or> (\<exists>item\<in>set items. \<exists>rels. item_relationships item = Some rels
            \<and> (\<exists>rel\<in>set rels. link_value l = num_or (rel_strength rel) 1))"
    if l: "l \<in> set (graph_links (convertToGraphData items))" for l
  proof (cases "l \<in> set (explicit_links items)")
    case True
    from explicit_link_origin[OF this] obtain item rels rel where
      "item \<in> set items" "item_relationships item = Some rels" "rel \<in> set rels" "l = rel_link item rel"
      by blast
    moreover from this have "link_value l = num_or (rel_strength rel) 1"
      by (simp add: rel_link_def)
    ultimately show ?thesis by blast
  next
    case False
    with l have "l \<in> set (fallback_links (node_list items 0))"
      by (simp add: graph_links_convert split: if_splits)
    from fallback_member[OF this] show ?thesis by auto
  qed
  have range: "0 \<le> link_value l \<and> link_value l \<le> 1"
    if s: "strengths_in_unit items" and l: "l \<in> set (graph_links (convertToGraphData items))" for l
  proof (cases "l \<in> set (explicit_links items)")
    case True
    from explicit_link_origin[OF this] obtain item rels rel where
      "item \<in> set items" "item_relationships item = Some rels" "rel \<in> set rels" "l = rel_link item rel"
      by blast
    with s show ?thesis using link_value_rel_link by blast
  next
    case False
    with l have "l \<in> set (fallback_links (node_list items 0))"
      by (simp add: graph_links_convert split: if_splits)
    from fallback_member[OF this] show ?thesis by auto
  qed
  from origin range show ?thesis by blast
qed

theorem convertToGraphData_strengths_witness:
  "strengths_in_unit
     [empty_item\<lparr>item_id := Some ''github-user-0'',
        item_relationships := Some [\<lparr>rel_target = Some ''github-repo-0'', rel_strength = Some 1\<rparr>]\<rparr>,
      empty_item\<lparr>item_id := Some ''github-repo-0''\<rparr>]
   \<and> map link_value (graph_links (convertToGraphData
     [empty_item\<lparr>item_id := Some ''github-user-0'',
        item_relationships := Some [\<lparr>rel_target = Some ''github-repo-0'', rel_strength = Some 1\<rparr>]\<rparr>,
      empty_item\<lparr>item_id := Some ''github-repo-0''\<rparr>])) = [1]
   \<and> list_all (\<lambda>l. 0 \<le> link_value l \<and> link_value l \<le> 1) (graph_links (convertToGraphData
     [empty_item\<lparr>item_id := Some ''github-user-0'',
        item_relationships := Some [\<lparr>rel_target = Some ''github-repo-0'', rel_strength = Some 1\<rparr>]\<rparr>,
      empty_item\<lparr>item_id := Some ''github-repo-0''\<rparr>]))"
proof -
  let ?items = "[empty_item\<lparr>item_id := Some ''github-user-0'',
        item_relationships := Some [\<lparr>rel_target = Some ''github-repo-0'', rel_strength = Some 1\<rparr>]\<rparr>,
      empty_item\<lparr>item_id := Some ''github-repo-0''\<rparr>]"
  have s: "strengths_in_unit ?items"
    by (simp add: strengths_in_unit_def empty_item_def)
  have v: "map link_value (graph_links (convertToGraphData ?items)) = [1]"
    by code_simp
  from convertToGraphData_strengths[of ?items] s
  have "\<forall>l\<in>set (graph_links (convertToGraphData ?items)). 0 \<le> link_value l \<and> link_value l \<le> 1"
    by blast
  then have "list_all (\<lambda>l. 0 \<le> link_value l \<and> link_value l \<le> 1)
               (graph_links (convertToGraphData ?items))"
    by (simp only: list_all_iff)
  with s v show ?thesis by blast
qed

text \<open>A relationship of strength \<open>2\<close> gives a link of strength \<open>2\<close>.\<close>

theorem convertToGraphData_strength_counterexample:
  "graph_links (convertToGraphData
      [empty_item\<lparr>item_id := Some ''a'',
         item_relationships := Some [\<lparr>rel_target = Some ''a'', rel_strength = Some 2\<rparr>]\<rparr>])
     = [\<lparr>link_source = Some ''a'', link_target = Some ''a'', link_value = 2\<rparr>]"
  by code_simp


section \<open>Properties of the search\<close>

lemma search_source_Inr:
  assumes "get_property (searchProviders dm) source \<noteq> Inherited"
  shows "search_source dm query source = Inr (source_promise dm query source)"
  using assms
  by (auto simp: search_source_def get_property_def source_promise_def split: option.splits if_splits)

lemma map_throwing_Inr:
  assumes "\<forall>x\<in>set xs. f x = Inr (g x)"
  shows "map_throwing f xs = Inr (map g xs)"
  using assms by (induction xs) simp_all

lemma source_promise_fulfilled: "source_promise dm query source \<noteq> Some (Rejected err)"
  by (auto simp: source_promise_def catch_empty_def split: option.splits promise.splits)

lemma promise_all_sources:
  "promise_all (map (source_promise dm query) xs) = Inr (map (source_value dm query) xs)"
proof (induction xs)
  case Nil
  show ?case by simp
next
  case (Cons x xs)
  show ?case
  proof (cases "source_promise dm query x")
    case None
    then show ?thesis by (simp add: Cons.IH source_value_def)
  next
    case (Some p)
    then show ?thesis
      using source_promise_fulfilled[of dm query x]
      by (cases p) (simp_all add: Cons.IH source_value_def)
  qed
qed

lemma push_results_eq:
  "push_results vs results =
     results @ concat (map (\<lambda>v. case v of Array xs \<Rightarrow> xs | NotArray \<Rightarrow> []) vs)"
  by (induction vs arbitrary: results) (simp_all split: js_value.splits)

lemma source_value_records:
  "(case source_value dm query source of Array xs \<Rightarrow> xs | NotArray \<Rightarrow> []) =
     source_records dm query source"
  by (simp add: source_value_def source_promise_def source_records_def catch_empty_def
           split: option.splits promise.splits js_value.splits)

lemma search_resolves:
  assumes "\<forall>s\<in>set (active_sources dm sources). get_property (searchProviders dm) s \<noteq> Inherited"
  shows "search dm query sources =
           Inr (rankResults (concat (map (source_records dm query) (active_sources dm sources))) query)"
proof -
  have "map_throwing (search_source dm query) (active_sources dm sources) =
          Inr (map (source_promise dm query) (active_sources dm sources))"
    using assms by (intro map_throwing_Inr) (simp add: search_source_Inr)
  moreover have "concat (map (\<lambda>v. case v of Array xs \<Rightarrow> xs | NotArray \<Rightarrow> [])
                    (map (source_value dm query) (active_sources dm sources))) =
                 concat (map (source_records dm query) (active_sources dm sources))"
    by (simp add: comp_def source_value_records)
  ultimately show ?thesis
    unfolding search_def Let_def active_sources_def[symmetric]
    by (simp add: promise_all_sources push_results_eq)
qed

lemma get_property_registered:
  assumes "s \<in> set (map fst obj)"
  shows "get_property obj s \<noteq> Inherited"
proof -
  from assms have "map_of obj s \<noteq> None" by (simp add: map_of_eq_None_iff)
  then show ?thesis by (auto simp: get_property_def)
qed

lemma active_sources_registered:
  assumes "set sources \<subseteq> insert ''all'' (set (map fst (searchProviders dm)))"
  shows "set (active_sources dm sources) \<subseteq> set (map fst (searchProviders dm))"
  using assms by (auto simp: active_sources_def)

lemma source_records_rejected:
  assumes "\<forall>p\<in>set (map snd (searchProviders dm)). \<exists>err. p query = Rejected err"
  shows "source_records dm query s = []"
proof (cases "map_of (searchProviders dm) s")
  case None
  then show ?thesis by (simp add: source_records_def)
next
  case (Some p)
  then have "p \<in> set (map snd (searchProviders dm))"
    by (force dest: map_of_SomeD)
  with assms obtain err where "p query = Rejected err" by blast
  with Some show ?thesis by (simp add: source_records_def)
qed

lemma rankResults_Nil: "rankResults [] query = []"
  by (simp add: rankResults_def js_sort_def)

text \<open>
  Claim C6. For the manager with any five providers, every query and every list of enabled
  sources (tags of registered providers, or \<open>all\<close>), \<open>search\<close> resolves: its result is the
  ranking of the concatenation, in source order, of what each source contributes, where a
  source whose search is rejected contributes the empty list and every other source its own
  records. When every provider's search is rejected, the result is the empty list.
\<close>

theorem search_failure_isolation:
  assumes "dm = DataManager_new icosa objaverse github web local"
    and "set sources \<subseteq> {''all'', ''icosa'', ''objaverse'', ''github'', ''web'', ''local''}"
  shows "search dm query sources =
           Inr (rankResults (concat (map (source_records dm query) (active_sources dm sources))) query)
         \<and> (\<forall>s p err. map_of (searchProviders dm) s = Some p \<and> p query = Rejected err \<longrightarrow>
               source_records dm query s = [])
         \<and> ((\<forall>p\<in>{icosa, objaverse, github, web, local}. \<exists>err. p query = Rejected err) \<longrightarrow>
               search dm query sources = Inr [])"
proof -
  have rej: "\<forall>s p err. map_of (searchProviders dm) s = Some p \<and> p query = Rejected err \<longrightarrow>
               source_records dm query s = []"
    by (simp add: source_records_def)
  have keys: "set (map fst (searchProviders dm)) = {''icosa'', ''objaverse'', ''github'', ''web'', ''local''}"
    by (simp add: assms(1) DataManager_new_def)
  have vals: "set (map snd (searchProviders dm)) = {icosa, objaverse, github, web, local}"
    by (simp add: assms(1) DataManager_new_def)
  from assms(2) keys have "set sources \<subseteq> insert ''all'' (set (map fst (searchProviders dm)))"
    by simp
  then have "set (active_sources dm sources) \<subseteq> set (map fst (searchProviders dm))"
    by (rule active_sources_registered)
  then have "\<forall>s\<in>set (active_sources dm sources). get_property (searchProviders dm) s \<noteq> Inherited"
    using get_property_registered by blast
  then have eq: "search dm query sources =
           Inr (rankResults (concat (map (source_records dm query) (active_sources dm sources))) query)"
    by (rule search_resolves)
  have "search dm query sources = Inr []"
    if "\<forall>p\<in>{icosa, objaverse, github, web, local}. \<exists>err. p query = Rejected err"
  proof -
    from that vals have "\<forall>p\<in>set (map snd (searchProviders dm)). \<exists>err. p query = Rejected err"
      by simp
    then have "source_records dm query s = []" for s
      by (rule source_records_rejected)
    then have "concat (map (source_records dm query) (active_sources dm sources)) = []"
      by simp
    then show ?thesis by (simp only: eq rankResults_Nil)
  qed
  with eq rej show ?thesis by blast
qed

theorem search_failure_isolation_witness:
  "set [''icosa'', ''github''] \<subseteq> {''all'', ''icosa'', ''objaverse'', ''github'', ''web'', ''local''}
   \<and> search (DataManager_new IcosaProvider_search ObjaverseProvider_search (\<lambda>q. Rejected SearchError)
                WebProvider_search LocalProvider_search) ''helmet'' [''icosa'', ''github'']
       = Inr (rankResults [icosa_item 0 ''Damaged Helmet'', icosa_item 1 ''Flight Helmet''] ''helmet'')
   \<and> source_records (DataManager_new IcosaProvider_search ObjaverseProvider_search
                (\<lambda>q. Rejected SearchError) WebProvider_search LocalProvider_search)
         ''helmet'' ''github'' = []
   \<and> search (DataManager_new (\<lambda>q. Rejected SearchError) (\<lambda>q. Rejected SearchError)
                (\<lambda>q. Rejected SearchError) (\<lambda>q. Rejected SearchError) (\<lambda>q. Rejected SearchError))
         ''helmet'' [''all''] = Inr []"
proof -
  let ?fail = "\<lambda>q::string. Rejected SearchError"
  let ?dm = "DataManager_new IcosaProvider_search ObjaverseProvider_search ?fail
               WebProvider_search LocalProvider_search"
  let ?none = "DataManager_new ?fail ?fail ?fail ?fail ?fail"
  have s1: "set [''icosa'', ''github''] \<subseteq> {''all'', ''icosa'', ''objaverse'', ''github'', ''web'', ''local''}"
    by simp
  have s2: "set [''all''] \<subseteq> {''all'', ''icosa'', ''objaverse'', ''github'', ''web'', ''local''}"
    by simp
  have recs: "concat (map (source_records ?dm ''helmet'') (active_sources ?dm [''icosa'', ''github'']))
                = [icosa_item 0 ''Damaged Helmet'', icosa_item 1 ''Flight Helmet'']"
    by code_simp
  have "search ?dm ''helmet'' [''icosa'', ''github'']
          = Inr (rankResults [icosa_item 0 ''Damaged Helmet'', icosa_item 1 ''Flight Helmet''] ''helmet'')"
    using search_failure_isolation[OF refl s1, of IcosaProvider_search ObjaverseProvider_search ?fail
            WebProvider_search LocalProvider_search "''helmet''"]
    by (simp only: recs)
  moreover have "map_of (searchProviders ?dm) ''github'' = Some ?fail
                 \<and> ?fail ''helmet'' = Rejected SearchError"
    by (simp add: DataManager_new_def)
  then have "source_records ?dm ''helmet'' ''github'' = []"
    using search_failure_isolation[OF refl s1, of IcosaProvider_search ObjaverseProvider_search ?fail
            WebProvider_search LocalProvider_search "''helmet''"]
    by blast
  moreover have "\<forall>p\<in>{?fail, ?fail, ?fail, ?fail, ?fail}. \<exists>err. p ''helmet'' = Rejected err"
    by simp
  then have "search ?none ''helmet'' [''all''] = Inr []"
    by (rule search_failure_isolation[OF refl s2, of ?fail ?fail ?fail ?fail ?fail "''helmet''",
          THEN conjunct2, THEN conjunct2, THEN mp])
  ultimately show ?thesis by simp
qed

section \<open>Tags without a registered provider\<close>

lemma search_unregistered_tag:
  assumes "''all'' \<notin> set sources" "\<forall>s\<in>set sources. s \<notin> set object_prototype_keys"
  shows "search dm query sources =
           Inr (rankResults (concat (map (source_records dm query) sources)) query)
         \<and> (\<forall>s. map_of (searchProviders dm) s = None \<longrightarrow> source_records dm query s = [])"
proof -
  have "\<forall>s\<in>set (active_sources dm sources). get_property (searchProviders dm) s \<noteq> Inherited"
    using assms by (auto simp: active_sources_def get_property_def split: option.splits)
  from search_resolves[OF this, of query] assms(1) show ?thesis
    by (simp add: active_sources_def source_records_def)
qed

text \<open>
  Claim C10 (a tag without a registered provider contributes nothing and raises nothing) fails
  for a tag that names a member inherited from \<open>Object.prototype\<close>, such as \<open>toString\<close>:
  no provider is registered under it, and \<open>search\<close> is rejected with a \<open>TypeError\<close>, also
  when another source in the list has a provider.
\<close>

theorem search_inherited_tag_rejects:
  "map_of (searchProviders (DataManager_new icosa objaverse github web local)) ''toString'' = None
   \<and> search (DataManager_new icosa objaverse github web local) query [''toString''] = Inl TypeError
   \<and> search (DataManager_new icosa objaverse github web local) query [''icosa'', ''toString'']
       = Inl TypeError"
  by (simp add: search_def search_source_def get_property_def DataManager_new_def
        object_prototype_keys_def)

section \<open>Superseded queries\<close>

text \<open>
  Claim C9, amended. \<open>performSearch\<close> keeps no generation counter: whenever a pending search
  resolves, its graph replaces the displayed one. After \<open>Q1\<close> and then \<open>Q2\<close> are issued, the
  displayed graph is that of \<open>Q1\<close> when \<open>Q1\<close> settles after \<open>Q2\<close>, and that of \<open>Q2\<close> when
  \<open>Q2\<close> settles last.
\<close>

theorem performSearch_last_settled_wins:
  "(i < length (pending v) \<and> pending v ! i = (query, sources)
      \<and> search dm query sources = Inr results \<longrightarrow>
      displayed (step dm (Settle i) v) = Some (convertToGraphData results))
   \<and> (pending v = [] \<and> search dm q1 s1 = Inr r1 \<and> search dm q2 s2 = Inr r2 \<longrightarrow>
        displayed (run dm [PerformSearch q1 s1, PerformSearch q2 s2, Settle 1, Settle 0] v)
          = Some (convertToGraphData r1)
      \<and> displayed (run dm [PerformSearch q1 s1, PerformSearch q2 s2, Settle 0, Settle 0] v)
          = Some (convertToGraphData r2))"
  by (simp add: drop_nth_def)

theorem performSearch_last_settled_wins_witness:
  "pending visualizer_init = []
   \<and> search DataManager_default ''helmet'' [''icosa'']
       = Inr (rankResults [icosa_item 0 ''Damaged Helmet'', icosa_item 1 ''Flight Helmet''] ''helmet'')
   \<and> search DataManager_default ''lantern'' [''icosa'']
       = Inr (rankResults [icosa_item 0 ''Lantern''] ''lantern'')
   \<and> displayed (run DataManager_default
         [PerformSearch ''helmet'' [''icosa''], PerformSearch ''lantern'' [''icosa''], Settle 1, Settle 0]
         visualizer_init)
       = Some (convertToGraphData
           (rankResults [icosa_item 0 ''Damaged Helmet'', icosa_item 1 ''Flight Helmet''] ''helmet''))
   \<and> displayed (step DataManager_default (Settle 0)
         (step DataManager_default (PerformSearch ''lantern'' [''icosa'']) visualizer_init))
       = Some (convertToGraphData (rankResults [icosa_item 0 ''Lantern''] ''lantern''))"
proof -
  let ?v = "step DataManager_default (PerformSearch ''lantern'' [''icosa'']) visualizer_init"
  have pv: "0 < length (pending ?v) \<and> pending ?v ! 0 = (''lantern'', [''icosa''])"
    by (simp add: visualizer_init_def)
  have p: "pending visualizer_init = []"
    by (simp add: visualizer_init_def)
  have r1: "search DataManager_default ''helmet'' [''icosa'']
       = Inr (rankResults [icosa_item 0 ''Damaged Helmet'', icosa_item 1 ''Flight Helmet''] ''helmet'')"
    by code_simp
  have r2: "search DataManager_default ''lantern'' [''icosa'']
       = Inr (rankResults [icosa_item 0 ''Lantern''] ''lantern'')"
    by code_simp
  from p r1 r2 have "displayed (run DataManager_default
         [PerformSearch ''helmet'' [''icosa''], PerformSearch ''lantern'' [''icosa''], Settle 1, Settle 0]
         visualizer_init)
       = Some (convertToGraphData
           (rankResults [icosa_item 0 ''Damaged Helmet'', icosa_item 1 ''Flight Helmet''] ''helmet''))"
    using performSearch_last_settled_wins[THEN conjunct2, of visualizer_init DataManager_default
            "''helmet''" "[''icosa'']" _ "''lantern''" "[''icosa'']"]
    by blast
  moreover from pv r2 have "displayed (step DataManager_default (Settle 0) ?v)
       = Some (convertToGraphData (rankResults [icosa_item 0 ''Lantern''] ''lantern''))"
    using performSearch_last_settled_wins[THEN conjunct1, of 0 ?v "''lantern''" "[''icosa'']"
            DataManager_default]
    by blast
  ultimately show ?thesis using p r1 r2 by blast
qed

text \<open>
  \<open>helmet\<close> is searched, then \<open>lantern\<close>; the search for \<open>lantern\<close> settles first. The graph
  displayed in the end is that of \<open>helmet\<close>, which differs from that of \<open>lantern\<close>.
\<close>

theorem performSearch_superseded_counterexample:
  "displayed (run DataManager_default
      [PerformSearch ''helmet'' [''icosa''], PerformSearch ''lantern'' [''icosa''], Settle 1, Settle 0]
      visualizer_init)
     = search_graph DataManager_default ''helmet'' [''icosa'']
   \<and> search_graph DataManager_default ''helmet'' [''icosa'']
       \<noteq> search_graph DataManager_default ''lantern'' [''icosa'']"
  by code_simp


end
